theory Spec2Isabelle
  imports Main "HOL-Library.Word"
begin

unbundle bit_operations_syntax

section \<open>SimpleShell: the console of the Smoothie firmware\<close>

text \<open>
  A shallow embedding of \<^verbatim>\<open>src/modules/utils/simpleshell/SimpleShell.cpp\<close>.
  A \<^verbatim>\<open>std::string\<close> is a \<^typ>\<open>string\<close> (a list of bytes), a \<^verbatim>\<open>StreamOutput\<close> is the
  list of the strings written to it (one element for each \<^verbatim>\<open>printf\<close> or \<^verbatim>\<open>puts\<close> call,
  oldest first), the fields of the \<^verbatim>\<open>SimpleShell\<close> object are a record that every member
  function takes and returns, and collaborators whose code is outside this file
  (the file system, the tokenizer of \<^verbatim>\<open>libs/utils\<close>, the checksum, the public data
  interface) are parameters of the functions that call them.
\<close>

subsection \<open>Strings\<close>

type_synonym stream = "string list"

definition NUL :: char where
  "NUL = CHR 0x00"

definition LF :: char where
  "LF = CHR 0x0A"

definition CR :: char where
  "CR = CHR 0x0D"

definition CRLF :: string where
  "CRLF = [CR, LF]"

text \<open>\<^verbatim>\<open>s[0]\<close>: for an empty \<^verbatim>\<open>std::string\<close> the element at index \<^verbatim>\<open>size()\<close> is the
  terminating NUL.\<close>

definition char0 :: "string \<Rightarrow> char" where
  "char0 s = (case s of [] \<Rightarrow> NUL | c # _ \<Rightarrow> c)"

text \<open>\<^verbatim>\<open>s.c_str()\<close> read as a C string by \<^verbatim>\<open>printf("%s")\<close>, \<^verbatim>\<open>puts\<close>, \<^verbatim>\<open>opendir\<close>,
  \<^verbatim>\<open>fopen\<close>: the bytes up to the first NUL.\<close>

definition c_str :: "string \<Rightarrow> string" where
  "c_str s = takeWhile (\<lambda>c. c \<noteq> NUL) s"

text \<open>\<^verbatim>\<open>s.find_first_of(cs)\<close>; \<open>None\<close> is \<^verbatim>\<open>string::npos\<close>.\<close>

definition find_first_of :: "string \<Rightarrow> string \<Rightarrow> nat option" where
  "find_first_of s cs =
     (if list_ex (\<lambda>c. c \<in> set cs) s
      then Some (length (takeWhile (\<lambda>c. c \<notin> set cs) s)) else None)"


text \<open>The undefined behaviour the C++ source can run into, as a value.\<close>

datatype fault = OutOfRange | DanglingPointer

subsection \<open>Session state\<close>

text \<open>The two fields of the \<^verbatim>\<open>SimpleShell\<close> object, and the device: \<open>system_resets\<close> lists
  the arguments of the calls of \<^verbatim>\<open>system_reset\<close> made so far, oldest first. The device
  restarts on such a call; the model records the call and goes on, so that what would
  follow can be stated. The header that declares \<^verbatim>\<open>reset_delay_secs\<close> is not in this file:
  it is an \<^verbatim>\<open>int\<close> here, and the code that counts it down from 5 does the same on an
  unsigned field.\<close>

record SimpleShell =
  current_path :: string
  reset_delay_secs :: int
  system_resets :: "bool list"

definition system_reset :: "bool \<Rightarrow> SimpleShell \<Rightarrow> SimpleShell" where
  "system_reset dfu s = s\<lparr>system_resets := system_resets s @ [dfu]\<rparr>"

definition on_module_loaded :: "SimpleShell \<Rightarrow> SimpleShell" where
  "on_module_loaded s = s\<lparr>current_path := ''/'', reset_delay_secs := 0\<rparr>"

definition on_second_tick :: "SimpleShell \<Rightarrow> SimpleShell" where
  "on_second_tick s =
     (if reset_delay_secs s > 0 then
        (let s' = s\<lparr>reset_delay_secs := reset_delay_secs s - 1\<rparr>
         in if reset_delay_secs s' = 0 then system_reset False s' else s')
      else s)"

subsection \<open>Path resolver\<close>

definition absolute_from_relative :: "SimpleShell \<Rightarrow> string \<Rightarrow> string" where
  "absolute_from_relative s path =
     (if char0 path = CHR ''/'' then path
      else if char0 path = CHR ''.'' then current_path s
      else current_path s @ path)"

subsection \<open>cd, pwd, reset\<close>

text \<open>\<open>opendir\<close> tells whether the directory of that name can be opened.
  \<^verbatim>\<open>folder[folder.length() - 1]\<close> on an empty string reads out of range.\<close>

definition cd_command ::
  "(string \<Rightarrow> bool) \<Rightarrow> string \<Rightarrow> stream \<Rightarrow> SimpleShell \<Rightarrow> fault + (stream \<times> SimpleShell)" where
  "cd_command opendir parameters stream s =
     (let folder = absolute_from_relative s parameters in
      if folder = [] then Inl OutOfRange
      else
        (let folder = (if last folder \<noteq> CHR ''/'' then folder @ ''/'' else folder) in
         if \<not> opendir (c_str folder)
         then Inr (stream @ [''Could not open directory '' @ c_str folder @ '' '' @ CRLF], s)
         else Inr (stream, s\<lparr>current_path := folder\<rparr>)))"

definition pwd_command :: "string \<Rightarrow> stream \<Rightarrow> SimpleShell \<Rightarrow> stream \<times> SimpleShell" where
  "pwd_command parameters stream s = (stream @ [c_str (current_path s) @ CRLF], s)"

definition reset_command :: "string \<Rightarrow> stream \<Rightarrow> SimpleShell \<Rightarrow> stream \<times> SimpleShell" where
  "reset_command parameters stream s =
     (stream @ [''Smoothie out. Peace. Rebooting in 5 seconds...'' @ CRLF],
      s\<lparr>reset_delay_secs := 5\<rparr>)"

subsection \<open>The session step machine\<close>

text \<open>The two callbacks that touch the countdown, as the events of a run:
  a periodic tick, and the \<^verbatim>\<open>reset\<close> command with its argument string.\<close>

datatype event = Second_tick | Reset_command string

fun step :: "stream \<times> SimpleShell \<Rightarrow> event \<Rightarrow> stream \<times> SimpleShell" where
  "step (out, s) Second_tick = (out, on_second_tick s)"
| "step (out, s) (Reset_command parameters) = reset_command parameters out s"

definition run :: "event list \<Rightarrow> stream \<times> SimpleShell \<Rightarrow> stream \<times> SimpleShell" where
  "run evs st = foldl step st evs"

text \<open>The session as \<^verbatim>\<open>on_module_loaded\<close> leaves it on a device that has not reset.\<close>

definition booted :: SimpleShell where
  "booted = on_module_loaded \<lparr>current_path = [], reset_delay_secs = 0, system_resets = []\<rparr>"

subsection \<open>Command table and dispatch\<close>






subsection \<open>Tokenizer and number parsing\<close>

text \<open>Modelled from the spec: \<^verbatim>\<open>shift_parameter\<close> of \<^verbatim>\<open>libs/utils\<close>, which is not in this
  file. It is the spec's "take next whitespace-delimited token" on the argument string:
  the token is the characters before the first blank, and what follows that blank
  remains. The commands take the tokenizer as their parameter \<open>shift\<close>; this one is used
  where a command is run on a concrete line.\<close>

definition shift_parameter :: "string \<Rightarrow> string \<times> string" where
  "shift_parameter parameters =
     (case find_first_of parameters '' '' of
        None \<Rightarrow> (parameters, [])
      | Some beginning \<Rightarrow> (take beginning parameters, drop (Suc beginning) parameters))"

text \<open>The C library's \<^verbatim>\<open>isspace\<close> and \<^verbatim>\<open>isdigit\<close> in the C locale.\<close>

definition isspace :: "char \<Rightarrow> bool" where
  "isspace c = (c \<in> set [CHR '' '', CHR 0x09, CHR 0x0A, CHR 0x0B, CHR 0x0C, CHR 0x0D])"


definition isdigit :: "char \<Rightarrow> bool" where
  "isdigit c = (48 \<le> (of_char c :: nat) \<and> (of_char c :: nat) \<le> 57)"

fun decimal :: "int \<Rightarrow> string \<Rightarrow> int" where
  "decimal acc [] = acc"
| "decimal acc (c # cs) = decimal (10 * acc + (int (of_char c) - 48)) cs"

text \<open>The C library's \<^verbatim>\<open>strtol(s, &e, 10)\<close> with a 32-bit \<^verbatim>\<open>long\<close>: white space, an optional
  sign, decimal digits; the value is clamped to the range of \<^verbatim>\<open>long\<close>. The second
  component is \<^verbatim>\<open>e - s\<close>, the number of characters consumed, 0 when there is no digit.\<close>

definition strtol :: "string \<Rightarrow> int \<times> nat" where
  "strtol s =
     (let ws = takeWhile isspace s;
          r = dropWhile isspace s;
          neg = (char0 r = CHR ''-'');
          r' = (if char0 r = CHR ''-'' \<or> char0 r = CHR ''+'' then tl r else r);
          ds = takeWhile isdigit r';
          v = (if neg then - decimal 0 ds else decimal 0 ds)
      in if ds = [] then (0, 0)
         else (max (- (2 ^ 31)) (min (2 ^ 31 - 1) v), length s - length r' + length ds))"

subsection \<open>cat\<close>

text \<open>The loop of \<^verbatim>\<open>cat_command\<close> over the bytes that \<^verbatim>\<open>fgetc\<close> still has to deliver; the
  end of the list is \<^verbatim>\<open>EOF\<close>. \<^verbatim>\<open>++linecnt\<close> is evaluated only when the byte is not a line
  feed. The counters are \<^verbatim>\<open>int\<close>s that a file of fewer than \<open>2^31\<close> bytes cannot
  overflow.\<close>

fun cat_loop :: "int \<Rightarrow> string \<Rightarrow> string \<Rightarrow> int \<Rightarrow> int \<Rightarrow> stream \<Rightarrow> stream" where
  "cat_loop limit [] buffer newlines linecnt stream = stream"
| "cat_loop limit (c # file) buffer newlines linecnt stream =
     (let buffer = buffer @ [c];
          linecnt = (if c = LF then linecnt else linecnt + 1);
          flush = (c = LF \<or> linecnt > 80);
          newlines = (if flush then newlines + 1 else newlines);
          stream = (if flush then stream @ [c_str buffer] else stream);
          buffer = (if flush then [] else buffer);
          linecnt = (if flush \<and> linecnt > 80 then 0 else linecnt)
      in if newlines = limit then stream
         else cat_loop limit file buffer newlines linecnt stream)"

text \<open>\<open>fopen\<close> gives the bytes of the file of that name, \<open>None\<close> when it cannot be
  opened.\<close>

definition cat_command ::
  "(string \<Rightarrow> string \<times> string) \<Rightarrow> (string \<Rightarrow> string option) \<Rightarrow> string \<Rightarrow> stream
    \<Rightarrow> SimpleShell \<Rightarrow> stream \<times> SimpleShell" where
  "cat_command shift fopen parameters stream s =
     (let (token, parameters) = shift parameters;
          filename = absolute_from_relative s token;
          (limit_paramater, parameters) = shift parameters;
          limit = (if limit_paramater \<noteq> []
                   then (let (l, e) = strtol (c_str limit_paramater)
                         in if e = 0 then - 1 else l)
                   else - 1)
      in case fopen (c_str filename) of
           None \<Rightarrow> (stream @ [''File not found: '' @ c_str filename @ CRLF], s)
         | Some file \<Rightarrow> (cat_loop limit file [] 0 0 stream, s))"

subsection \<open>rm\<close>

text \<open>The \<^verbatim>\<open>std::string\<close> objects whose lifetime matters: the live buffers by address.
  \<open>construct\<close> makes a new object, \<open>destroy\<close> ends its lifetime, and \<open>deref\<close> reads the
  C string behind a \<^verbatim>\<open>const char *\<close>, which is undefined when the buffer it points into
  has been destroyed.\<close>

record strings =
  next_addr :: nat
  buffers :: "nat \<Rightarrow> string option"

definition construct :: "string \<Rightarrow> strings \<Rightarrow> nat \<times> strings" where
  "construct v h =
     (next_addr h, h\<lparr>next_addr := Suc (next_addr h), buffers := (buffers h)(next_addr h \<mapsto> v)\<rparr>)"

definition destroy :: "nat \<Rightarrow> strings \<Rightarrow> strings" where
  "destroy a h = h\<lparr>buffers := (buffers h)(a := None)\<rparr>"

definition deref :: "strings \<Rightarrow> nat \<Rightarrow> fault + string" where
  "deref h p = (case buffers h p of None \<Rightarrow> Inl DanglingPointer | Some v \<Rightarrow> Inr (c_str v))"

text \<open>In \<^verbatim>\<open>const char *fn = this->absolute_from_relative(...).c_str();\<close> the string that
  \<^verbatim>\<open>absolute_from_relative\<close> returns is a temporary: \<^verbatim>\<open>fn\<close> points into its buffer, and
  the temporary is destroyed at the end of that statement. \<^verbatim>\<open>remove(fn)\<close> and
  \<^verbatim>\<open>printf(..., fn)\<close> then read through \<^verbatim>\<open>fn\<close>. \<open>remove\<close> is the file system's delete, with
  its \<^verbatim>\<open>int\<close> result.\<close>

definition rm_command ::
  "(string \<Rightarrow> string \<times> string) \<Rightarrow> (string \<Rightarrow> int) \<Rightarrow> string \<Rightarrow> stream \<Rightarrow> SimpleShell
    \<Rightarrow> strings \<Rightarrow> fault + (stream \<times> SimpleShell \<times> strings)" where
  "rm_command shift remove parameters stream s h =
     (let (token, parameters) = shift parameters;
          (temporary, h) = construct (absolute_from_relative s token) h;
          fn = temporary;
          h = destroy temporary h
      in case deref h fn of
           Inl f \<Rightarrow> Inl f
         | Inr name \<Rightarrow>
             (if remove name \<noteq> 0
              then (case deref h fn of
                      Inl f \<Rightarrow> Inl f
                    | Inr name \<Rightarrow> Inr (stream @ [''Could not delete '' @ name @ '' '' @ CRLF], s, h))
              else Inr (stream, s, h)))"

subsection \<open>set_temp\<close>

definition tolower :: "char \<Rightarrow> char" where
  "tolower c =
     (if 65 \<le> (of_char c :: nat) \<and> (of_char c :: nat) \<le> 90 then char_of (of_char c + 32 :: nat) else c)"

text \<open>Whether the C library's \<^verbatim>\<open>strtod\<close> finds a number at the start of the string: after
  white space and an optional sign, a digit, a point followed by a digit, or \<^verbatim>\<open>inf\<close> or
  \<^verbatim>\<open>nan\<close> in any case.\<close>

definition strtod_subject :: "string \<Rightarrow> bool" where
  "strtod_subject s =
     (let r = dropWhile isspace s;
          r = (if char0 r = CHR ''-'' \<or> char0 r = CHR ''+'' then tl r else r)
      in isdigit (char0 r)
         \<or> (char0 r = CHR ''.'' \<and> isdigit (char0 (tl r)))
         \<or> map tolower (take 3 r) = ''inf''
         \<or> map tolower (take 3 r) = ''nan'')"

text \<open>\<^verbatim>\<open>strtod(s, NULL)\<close>: zero when no conversion can be performed; \<open>conv\<close> is the
  \<^verbatim>\<open>double\<close> that the conversion of a number gives, which is not modelled.\<close>

definition strtod :: "(string \<Rightarrow> 'd::zero) \<Rightarrow> string \<Rightarrow> 'd" where
  "strtod conv s = (if strtod_subject s then conv s else 0)"

text \<open>\<open>set_value\<close> is \<^verbatim>\<open>kernel->public_data->set_value\<close> on the state \<open>pd\<close> of the modules
  that answer it, \<open>temperature_control_checksum\<close> a constant of a header that is not in
  this file, and \<open>fmt\<close> the text that \<^verbatim>\<open>%3.1f\<close> prints for a \<^verbatim>\<open>double\<close>.\<close>

definition set_temp_command ::
  "(string \<Rightarrow> string \<times> string) \<Rightarrow> (string \<Rightarrow> 16 word) \<Rightarrow> (string \<Rightarrow> 'd::zero)
    \<Rightarrow> (16 word \<Rightarrow> 16 word \<Rightarrow> 'd \<Rightarrow> 'pd \<Rightarrow> bool \<times> 'pd) \<Rightarrow> ('d \<Rightarrow> string) \<Rightarrow> 16 word
    \<Rightarrow> string \<Rightarrow> stream \<Rightarrow> SimpleShell \<Rightarrow> 'pd \<Rightarrow> stream \<times> SimpleShell \<times> 'pd" where
  "set_temp_command shift get_checksum conv set_value fmt temperature_control_checksum
       parameters stream s pd =
     (let (type, parameters) = shift parameters;
          (temp, parameters) = shift parameters;
          t = (if temp = [] then 0 else strtod conv (c_str temp));
          (ok, pd) = set_value temperature_control_checksum (get_checksum type) t pd
      in if ok
         then (stream @ [c_str type @ '' temp set to: '' @ fmt t @ CRLF], s, pd)
         else (stream @ [c_str type @ '' is not a known temperature device'' @ CRLF], s, pd))"

subsection \<open>Heap walk\<close>

text \<open>The heap is read through \<^verbatim>\<open>*(uint32_t *)address\<close>: \<open>mem a\<close> is the 32-bit word stored
  at the byte address \<open>a\<close>. All the variables of \<^verbatim>\<open>heapWalk\<close> are \<^verbatim>\<open>uint32_t\<close>, so the
  arithmetic wraps. What \<^verbatim>\<open>heapWalk\<close> prints is kept as the arguments of its three
  format strings.\<close>

type_synonym u32 = "32 word"

datatype heap_line =
  Used_Heap_Size u32
  | Chunk u32 u32 u32 bool
  | Allocated_Free u32 u32

record walk =
  chunkNumber :: u32
  chunkCurr :: u32
  freeCurr :: u32
  freeSize :: u32
  usedSize :: u32
  printed :: "heap_line list"

text \<open>One pass through the body of the loop.\<close>

definition heapWalk_body :: "(u32 \<Rightarrow> u32) \<Rightarrow> bool \<Rightarrow> walk \<Rightarrow> walk" where
  "heapWalk_body mem verbose w =
     (let chunkSize = mem (chunkCurr w);
          chunkNext = chunkCurr w + chunkSize;
          isChunkFree = (chunkCurr w = freeCurr w);
          freeCurr' = (if chunkCurr w = freeCurr w then mem (freeCurr w + 4) else freeCurr w);
          chunkCurr' = chunkCurr w + 4;
          chunkCurr' = (chunkCurr' + 7) AND NOT 7;
          chunkSize = chunkSize - 8;
          printed' = (if verbose
                      then printed w @ [Chunk (chunkNumber w) chunkCurr' chunkSize isChunkFree]
                      else printed w)
      in \<lparr>chunkNumber = chunkNumber w + 1,
          chunkCurr = chunkNext,
          freeCurr = freeCurr',
          freeSize = (if isChunkFree then freeSize w + chunkSize else freeSize w),
          usedSize = (if isChunkFree then usedSize w else usedSize w + chunkSize),
          printed = printed'\<rparr>)"

text \<open>The loop \<^verbatim>\<open>while (chunkCurr < heapEnd)\<close>; it need not end (a chunk of size 0 is
  walked forever), and then the result is \<open>None\<close>.\<close>

partial_function (option) heapWalk_loop :: "(u32 \<Rightarrow> u32) \<Rightarrow> bool \<Rightarrow> u32 \<Rightarrow> walk \<Rightarrow> walk option" where
  "heapWalk_loop mem verbose heapEnd w =
     (if chunkCurr w < heapEnd
      then heapWalk_loop mem verbose heapEnd (heapWalk_body mem verbose w)
      else Some w)"

text \<open>\<open>heapStart\<close> is the address of \<^verbatim>\<open>__end__\<close>, \<open>malloc_free_list\<close> the value of
  \<^verbatim>\<open>__malloc_free_list\<close> and \<open>heapEnd\<close> the result of \<^verbatim>\<open>_sbrk(0)\<close>. The result is what
  has been printed when the function returns.\<close>

definition heapWalk ::
  "(u32 \<Rightarrow> u32) \<Rightarrow> u32 \<Rightarrow> u32 \<Rightarrow> u32 \<Rightarrow> heap_line list \<Rightarrow> bool \<Rightarrow> heap_line list option" where
  "heapWalk mem heapStart malloc_free_list heapEnd stream verbose =
     (let w = \<lparr>chunkNumber = 1, chunkCurr = heapStart, freeCurr = malloc_free_list,
               freeSize = 0, usedSize = 0,
               printed = stream @ [Used_Heap_Size (heapEnd - heapStart)]\<rparr>
      in map_option (\<lambda>w. printed w @ [Allocated_Free (usedSize w) (freeSize w)])
           (heapWalk_loop mem verbose heapEnd w))"

text \<open>The allocator's invariants, in the spec's words: the chunks whose raw sizes are
  \<open>sizes\<close> lie one after the other from \<open>cur\<close> to the end of the heap, each with its size
  in its first word, and every raw size includes the 8 bytes of overhead.\<close>

fun heap_chunks :: "(u32 \<Rightarrow> u32) \<Rightarrow> u32 \<Rightarrow> u32 \<Rightarrow> u32 list \<Rightarrow> bool" where
  "heap_chunks mem cur heapEnd [] = (cur = heapEnd)"
| "heap_chunks mem cur heapEnd (sz # sizes) =
     (mem cur = sz \<and> 8 \<le> sz \<and> unat cur + unat sz \<le> unat heapEnd
      \<and> heap_chunks mem (cur + sz) heapEnd sizes)"

text \<open>The chunks that the spec's walk discovers, each with its address, its adjusted
  size and its classification: a chunk is free exactly when its address is the free-list
  cursor, and the cursor then moves to the next-free pointer in the chunk's second
  word.\<close>

fun classify :: "(u32 \<Rightarrow> u32) \<Rightarrow> u32 \<Rightarrow> u32 \<Rightarrow> u32 list \<Rightarrow> (u32 \<times> u32 \<times> bool) list" where
  "classify mem cur cursor [] = []"
| "classify mem cur cursor (sz # sizes) =
     (cur, sz - 8, cur = cursor)
       # classify mem (cur + sz) (if cur = cursor then mem (cursor + 4) else cursor) sizes"

text \<open>The spec's totals of the used and of the free chunks, and its per-chunk lines:
  sequence number, aligned address, adjusted size, free marker.\<close>

definition usedBytes :: "(u32 \<times> u32 \<times> bool) list \<Rightarrow> u32" where
  "usedBytes chunks = sum_list (map (\<lambda>(a, sz, free). sz) (filter (\<lambda>(a, sz, free). \<not> free) chunks))"

definition freeBytes :: "(u32 \<times> u32 \<times> bool) list \<Rightarrow> u32" where
  "freeBytes chunks = sum_list (map (\<lambda>(a, sz, free). sz) (filter (\<lambda>(a, sz, free). free) chunks))"

fun chunk_lines :: "u32 \<Rightarrow> (u32 \<times> u32 \<times> bool) list \<Rightarrow> heap_line list" where
  "chunk_lines n [] = []"
| "chunk_lines n ((a, sz, free) # chunks) =
     Chunk n ((a + 4 + 7) AND NOT 7) sz free # chunk_lines (n + 1) chunks"

section \<open>Path resolution\<close>

lemma char0_Cons: "char0 (c # cs) = c"
  by (simp add: char0_def)

text \<open>
  Claim C9. A path token whose first character is a dot resolves to the session's
  current path, whatever follows the dot: the tokens \<open>..\<close>, \<open>.hidden\<close> and \<open>./sub\<close> all
  give the current path itself, so the resolver neither goes to a parent directory nor
  resolves a dotted relative path.
\<close>

theorem absolute_from_relative_dot:
  "absolute_from_relative s (CHR ''.'' # rest) = current_path s
   \<and> absolute_from_relative s ''..'' = current_path s
   \<and> absolute_from_relative s ''.hidden'' = current_path s
   \<and> absolute_from_relative s ''./sub'' = current_path s"
  by (simp add: absolute_from_relative_def char0_Cons)

section \<open>Change directory\<close>

lemma absolute_from_relative_nonempty:
  "current_path s \<noteq> [] \<Longrightarrow> absolute_from_relative s p \<noteq> []"
  by (cases p) (auto simp: absolute_from_relative_def char0_def NUL_def)

lemma c_str_plain: "NUL \<notin> set xs \<Longrightarrow> c_str xs = xs"
  unfolding c_str_def by (rule takeWhile_eq_all_conv [THEN iffD2]) auto

lemma booted_current_path: "current_path booted = ''/''"
  by (simp add: booted_def on_module_loaded_def)

lemma cd_command_current_path_nonempty:
  "current_path s \<noteq> [] \<Longrightarrow> cd_command opendir p out s = Inr (out', s') \<Longrightarrow>
   current_path s' \<noteq> []"
  by (auto simp: cd_command_def Let_def split: if_splits)

text \<open>
  Claim C3. Change-directory is atomic on the session: with \<open>folder\<close> the resolved path
  with a trailing separator ensured, a failed open leaves the whole session as it was and
  prints the error message, and a successful open replaces the current path by \<open>folder\<close>
  and prints nothing. After \<open>cd /a\<close> (which succeeds) and \<open>cd /nonexistent\<close> (which
  fails), \<open>pwd\<close> reports \<open>/a/\<close>. The session's current path is not empty (it is \<open>/\<close> after
  loading, and only a successful change-directory replaces it, by a folder that ends in
  the separator).
\<close>

theorem cd_command_atomic:
  assumes "current_path s \<noteq> []"
  shows "(let resolved = absolute_from_relative s p;
              folder = (if last resolved = CHR ''/'' then resolved else resolved @ ''/'')
          in (\<not> opendir (c_str folder) \<longrightarrow>
                cd_command opendir p out s =
                  Inr (out @ [''Could not open directory '' @ c_str folder @ '' '' @ CRLF], s))
           \<and> (opendir (c_str folder) \<longrightarrow>
                cd_command opendir p out s = Inr (out, s\<lparr>current_path := folder\<rparr>)
                \<and> folder \<noteq> [] \<and> last folder = CHR ''/''))
       \<and> (opendir ''/a/'' \<and> \<not> opendir ''/nonexistent/'' \<longrightarrow>
            (\<exists>out1 s1 out2 s2.
               cd_command opendir ''/a'' out s = Inr (out1, s1)
             \<and> cd_command opendir ''/nonexistent'' out1 s1 = Inr (out2, s2)
             \<and> pwd_command [] out2 s2 = (out2 @ [''/a/'' @ CRLF], s2)))"
proof -
  have ne: "absolute_from_relative s p \<noteq> []"
    using assms by (rule absolute_from_relative_nonempty)
  have general: "(let resolved = absolute_from_relative s p;
              folder = (if last resolved = CHR ''/'' then resolved else resolved @ ''/'')
          in (\<not> opendir (c_str folder) \<longrightarrow>
                cd_command opendir p out s =
                  Inr (out @ [''Could not open directory '' @ c_str folder @ '' '' @ CRLF], s))
           \<and> (opendir (c_str folder) \<longrightarrow>
                cd_command opendir p out s = Inr (out, s\<lparr>current_path := folder\<rparr>)
                \<and> folder \<noteq> [] \<and> last folder = CHR ''/''))"
    using ne by (simp add: cd_command_def Let_def)
  have a: "absolute_from_relative s ''/a'' = ''/a''"
    by (simp add: absolute_from_relative_def char0_def)
  have n: "absolute_from_relative (s\<lparr>current_path := ''/a/''\<rparr>) ''/nonexistent'' = ''/nonexistent''"
    by (simp add: absolute_from_relative_def char0_def)
  have ca: "c_str ''/a/'' = ''/a/''" and cn: "c_str ''/nonexistent/'' = ''/nonexistent/''"
    by (simp_all add: c_str_def NUL_def)
  have sequence: "\<exists>out1 s1 out2 s2.
               cd_command opendir ''/a'' out s = Inr (out1, s1)
             \<and> cd_command opendir ''/nonexistent'' out1 s1 = Inr (out2, s2)
             \<and> pwd_command [] out2 s2 = (out2 @ [''/a/'' @ CRLF], s2)"
    if "opendir ''/a/''" and "\<not> opendir ''/nonexistent/''"
  proof -
    have 1: "cd_command opendir ''/a'' out s = Inr (out, s\<lparr>current_path := ''/a/''\<rparr>)"
      using that(1) by (simp add: cd_command_def a ca)
    have 2: "cd_command opendir ''/nonexistent'' out (s\<lparr>current_path := ''/a/''\<rparr>) =
        Inr (out @ [''Could not open directory '' @ ''/nonexistent/'' @ '' '' @ CRLF],
             s\<lparr>current_path := ''/a/''\<rparr>)"
      using that(2) by (simp add: cd_command_def n cn)
    have 3: "pwd_command [] out' (s\<lparr>current_path := ''/a/''\<rparr>) =
        (out' @ [''/a/'' @ CRLF], s\<lparr>current_path := ''/a/''\<rparr>)" for out'
      by (simp add: pwd_command_def ca)
    show ?thesis
      using 1 2 3 by blast
  qed
  show ?thesis
    using general sequence by blast
qed

theorem cd_command_atomic_witness:
  "current_path booted = ''/''
   \<and> cd_command (\<lambda>d. d = ''/a/'') ''/a'' [] booted = Inr ([], booted\<lparr>current_path := ''/a/''\<rparr>)
   \<and> cd_command (\<lambda>d. d = ''/a/'') ''/nonexistent'' [] booted =
       Inr ([''Could not open directory /nonexistent/ '' @ CRLF], booted)
   \<and> (\<exists>out1 s1 out2 s2.
         cd_command (\<lambda>d. d = ''/a/'') ''/a'' [] booted = Inr (out1, s1)
       \<and> cd_command (\<lambda>d. d = ''/a/'') ''/nonexistent'' out1 s1 = Inr (out2, s2)
       \<and> pwd_command [] out2 s2 = (out2 @ [''/a/'' @ CRLF], s2))"
proof -
  have b: "current_path booted \<noteq> []" and b': "current_path booted = ''/''"
    by (simp_all add: booted_def on_module_loaded_def)
  have a: "absolute_from_relative booted ''/a'' = ''/a''"
    and n: "absolute_from_relative booted ''/nonexistent'' = ''/nonexistent''"
    by (simp_all add: absolute_from_relative_def char0_def)
  have ca: "c_str ''/a/'' = ''/a/''" and cn: "c_str ''/nonexistent/'' = ''/nonexistent/''"
    by (simp_all add: c_str_def NUL_def)
  show ?thesis
    using cd_command_atomic [OF b, of "''/a''" "\<lambda>d. d = ''/a/''" "[]"]
      cd_command_atomic [OF b, of "''/nonexistent''" "\<lambda>d. d = ''/a/''" "[]"]
    by (simp add: a n ca cn b' Let_def)
qed

section \<open>The reset countdown\<close>

lemma run_Nil: "run [] st = st"
  by (simp add: run_def)

lemma run_Cons: "run (e # evs) st = run evs (step st e)"
  by (simp add: run_def)

lemma run_append: "run (xs @ ys) st = run ys (run xs st)"
  by (simp add: run_def)

lemma ticks_fire:
  "run (replicate k Second_tick) (out, s) =
     (out, if 0 < reset_delay_secs s \<and> reset_delay_secs s \<le> int k
           then s\<lparr>reset_delay_secs := 0, system_resets := system_resets s @ [False]\<rparr>
           else if 0 < reset_delay_secs s
           then s\<lparr>reset_delay_secs := reset_delay_secs s - int k\<rparr>
           else s)"
proof (induction k arbitrary: s)
  case 0
  then show ?case by (simp add: run_Nil)
next
  case (Suc k)
  show ?case
    by (simp add: run_Cons Suc.IH)
       (auto simp: on_second_tick_def system_reset_def Let_def)
qed

lemma reset_then_ticks:
  "run (Reset_command p # replicate k Second_tick) (out, s) =
     (out @ [''Smoothie out. Peace. Rebooting in 5 seconds...'' @ CRLF],
      if 5 \<le> k then s\<lparr>reset_delay_secs := 0, system_resets := system_resets s @ [False]\<rparr>
      else s\<lparr>reset_delay_secs := 5 - int k\<rparr>)"
  by (simp add: run_Cons reset_command_def ticks_fire)

text \<open>
  Claim C4, as the code has it. The reset command prints its reply at once and arms the
  countdown; when only periodic ticks follow it (the command is not issued again before
  the countdown ends), the device reset has not fired after fewer than five ticks and
  has fired exactly once, with \<^verbatim>\<open>system_reset(false)\<close>, after five ticks or more: it
  fires on the fifth tick and never again. While the countdown is idle, ticks fire
  nothing.
\<close>

theorem reset_fires_on_fifth_tick:
  "fst (run [Reset_command p] (out, s)) =
     out @ [''Smoothie out. Peace. Rebooting in 5 seconds...'' @ CRLF]
   \<and> system_resets (snd (run [Reset_command p] (out, s))) = system_resets s
   \<and> system_resets (snd (run (Reset_command p # replicate k Second_tick) (out, s))) =
       system_resets s @ (if 5 \<le> k then [False] else [])
   \<and> (reset_delay_secs s = 0 \<longrightarrow>
        run (replicate k Second_tick) (out, s) = (out, s))"
  using reset_then_ticks [of p 0 out s]
  by (simp add: reset_then_ticks ticks_fire)

theorem reset_fires_on_fifth_tick_witness:
  "reset_delay_secs booted = 0
   \<and> run (replicate 7 Second_tick) ([], booted) = ([], booted)
   \<and> system_resets (snd (run (Reset_command [] # replicate 4 Second_tick) ([], booted))) = []
   \<and> system_resets (snd (run (Reset_command [] # replicate 5 Second_tick) ([], booted))) = [False]
   \<and> system_resets (snd (run (Reset_command [] # replicate 6 Second_tick) ([], booted))) = [False]"
proof -
  have b: "reset_delay_secs booted = 0" "system_resets booted = []"
    by (simp_all add: booted_def on_module_loaded_def)
  show ?thesis
    using reset_fires_on_fifth_tick [of "[]" "[]" booted 7]
      reset_fires_on_fifth_tick [of "[]" "[]" booted 4]
      reset_fires_on_fifth_tick [of "[]" "[]" booted 5]
      reset_fires_on_fifth_tick [of "[]" "[]" booted 6]
    by (simp add: b)
qed

text \<open>
  Claim C4 as stated, for every run, fails on a run that issues the reset command again
  while the countdown is armed: after reset, one tick, reset, the fifth tick after the
  first reset fires nothing; the device reset fires on the sixth.
\<close>

theorem reset_fifth_tick_counterexample:
  "system_resets (snd (run [Reset_command [], Second_tick, Reset_command [],
       Second_tick, Second_tick, Second_tick, Second_tick] ([], booted))) \<noteq> [False]
   \<and> system_resets (snd (run [Reset_command [], Second_tick, Reset_command [],
       Second_tick, Second_tick, Second_tick, Second_tick] ([], booted))) = []
   \<and> system_resets (snd (run [Reset_command [], Second_tick, Reset_command [],
       Second_tick, Second_tick, Second_tick, Second_tick, Second_tick] ([], booted))) = [False]"
  by (simp add: run_Cons run_Nil reset_command_def on_second_tick_def system_reset_def
      booted_def on_module_loaded_def)

text \<open>
  Claim C10. From every session state the reset command sets the countdown to exactly 5,
  and issuing it a second time changes nothing in the session. So when the countdown is
  already armed with a value below 5, the tick on which the earlier countdown would have
  fired the device reset fires nothing after a new reset command, and the device reset
  fires on the fifth tick after the new command.
\<close>

theorem reset_command_rearms:
  "reset_delay_secs (snd (reset_command p out s)) = 5
   \<and> snd (reset_command p' out' (snd (reset_command p out s))) = snd (reset_command p out s)
   \<and> (0 < reset_delay_secs s \<and> reset_delay_secs s < 5 \<longrightarrow>
        system_resets (snd (run (replicate (nat (reset_delay_secs s)) Second_tick) (out, s))) =
          system_resets s @ [False]
      \<and> system_resets (snd (run (Reset_command p #
            replicate (nat (reset_delay_secs s)) Second_tick) (out, s))) = system_resets s
      \<and> system_resets (snd (run (Reset_command p # replicate 5 Second_tick) (out, s))) =
          system_resets s @ [False])"
  by (auto simp: reset_command_def reset_then_ticks ticks_fire)

theorem reset_command_rearms_witness:
  "0 < reset_delay_secs (booted\<lparr>reset_delay_secs := 2\<rparr>)
   \<and> reset_delay_secs (booted\<lparr>reset_delay_secs := 2\<rparr>) < 5
   \<and> reset_delay_secs (snd (reset_command [] [] (booted\<lparr>reset_delay_secs := 2\<rparr>))) = 5
   \<and> system_resets (snd (run (replicate 2 Second_tick)
        ([], booted\<lparr>reset_delay_secs := 2\<rparr>))) = [False]
   \<and> system_resets (snd (run (Reset_command [] # replicate 2 Second_tick)
        ([], booted\<lparr>reset_delay_secs := 2\<rparr>))) = []
   \<and> system_resets (snd (run (Reset_command [] # replicate 5 Second_tick)
        ([], booted\<lparr>reset_delay_secs := 2\<rparr>))) = [False]"
proof -
  have b: "system_resets booted = []"
    by (simp add: booted_def on_module_loaded_def)
  show ?thesis
    using reset_command_rearms [of "[]" "[]" "booted\<lparr>reset_delay_secs := 2\<rparr>" "[]" "[]"]
    by (simp add: b)
qed

section \<open>Dispatch\<close>







section \<open>cat\<close>

lemma cat_loop_fill:
  "LF \<notin> set xs \<Longrightarrow> linecnt + int (length xs) \<le> 80 \<Longrightarrow> newlines \<noteq> limit \<Longrightarrow>
   cat_loop limit (xs @ rest) buffer newlines linecnt stream =
   cat_loop limit rest (buffer @ xs) newlines (linecnt + int (length xs)) stream"
proof (induction xs arbitrary: buffer linecnt)
  case Nil
  then show ?case by simp
next
  case (Cons x xs)
  from Cons.prems have "cat_loop limit ((x # xs) @ rest) buffer newlines linecnt stream =
      cat_loop limit (xs @ rest) (buffer @ [x]) newlines (linecnt + 1) stream"
    by (auto simp: Let_def)
  also have "\<dots> =
      cat_loop limit rest ((buffer @ [x]) @ xs) newlines (linecnt + 1 + int (length xs)) stream"
    using Cons.prems by (intro Cons.IH) auto
  finally show ?case by (simp add: add.assoc)
qed

lemma cat_loop_full:
  "c \<noteq> LF \<Longrightarrow> newlines + 1 \<noteq> limit \<Longrightarrow>
   cat_loop limit (c # rest) buffer newlines 80 stream =
   cat_loop limit rest [] (newlines + 1) 0 (stream @ [c_str (buffer @ [c])])"
  by (simp add: Let_def)

lemma cat_loop_chunk:
  assumes "length xs = 81" "LF \<notin> set xs" "newlines \<noteq> limit" "newlines + 1 \<noteq> limit"
  shows "cat_loop limit (xs @ rest) [] newlines 0 stream =
         cat_loop limit rest [] (newlines + 1) 0 (stream @ [c_str xs])"
proof -
  obtain ys c where xs: "xs = ys @ [c]"
    using assms(1) by (cases xs rule: rev_cases) auto
  with assms have l: "length ys = 80" "LF \<notin> set ys" "c \<noteq> LF"
    by auto
  have "cat_loop limit (xs @ rest) [] newlines 0 stream =
        cat_loop limit (ys @ (c # rest)) [] newlines 0 stream"
    by (simp add: xs)
  also have "\<dots> = cat_loop limit (c # rest) ([] @ ys) newlines (0 + int (length ys)) stream"
    using l assms(3) by (intro cat_loop_fill) auto
  also have "\<dots> = cat_loop limit rest [] (newlines + 1) 0 (stream @ [c_str xs])"
    using l assms(4) by (simp add: cat_loop_full xs del: cat_loop.simps)
  finally show ?thesis .
qed

lemma cat_loop_tail:
  assumes "length xs \<le> 80" "LF \<notin> set xs" "newlines \<noteq> limit"
  shows "cat_loop limit xs [] newlines 0 stream = stream"
  using cat_loop_fill [of xs 0 newlines limit "[]" "[]" stream] assms by simp

lemma cat_loop_200:
  assumes "length content = 200" "LF \<notin> set content"
  shows "cat_loop (- 1) content [] 0 0 stream =
         stream @ [c_str (take 81 content), c_str (take 81 (drop 81 content))]"
proof -
  define a where "a = take 81 content"
  define b where "b = take 81 (drop 81 content)"
  define c where "c = drop 162 content"
  have "drop 81 (drop 81 content) = c"
    by (simp add: c_def)
  then have "drop 81 content = b @ c"
    by (metis append_take_drop_id b_def)
  then have f: "content = a @ b @ c"
    by (metis append_take_drop_id a_def)
  have la: "length a = 81" "length b = 81" "length c \<le> 80"
    using assms(1) by (simp_all add: a_def b_def c_def)
  have n: "LF \<notin> set a" "LF \<notin> set b" "LF \<notin> set c"
    using assms(2) by (auto simp: a_def b_def c_def dest: in_set_takeD in_set_dropD)
  have "cat_loop (- 1) content [] 0 0 stream =
      cat_loop (- 1) (b @ c) [] 1 0 (stream @ [c_str a])"
    unfolding f using cat_loop_chunk [of a 0 "- 1" "b @ c" stream] la n by simp
  also have "\<dots> = cat_loop (- 1) c [] 2 0 (stream @ [c_str a] @ [c_str b])"
    using cat_loop_chunk [of b 1 "- 1" c "stream @ [c_str a]"] la n by simp
  also have "\<dots> = stream @ [c_str a] @ [c_str b]"
    using la n by (intro cat_loop_tail) auto
  finally show ?thesis by (simp add: a_def b_def)
qed

text \<open>
  Claim C5, on the code. For a file of 200 bytes with no line feed, and no limit
  argument, cat writes exactly two chunks to the stream: bytes 1 to 81 and bytes 82 to
  162 of the file (each cut at its first NUL, as \<^verbatim>\<open>puts\<close> does). A chunk without NUL is
  81 bytes long, one more than 80, and the last 38 bytes of the file are never written:
  there is no flush after the loop.
\<close>

theorem cat_command_long_line:
  assumes "length content = 200" and "LF \<notin> set content"
    and "shift parameters = (token, rest)" and "shift rest = ([], rest')"
    and "fopen (c_str (absolute_from_relative s token)) = Some content"
  shows "cat_command shift fopen parameters stream s =
           (stream @ [c_str (take 81 content), c_str (take 81 (drop 81 content))], s)
         \<and> (NUL \<notin> set content \<longrightarrow>
              length (c_str (take 81 content)) = 81
            \<and> length (c_str (take 81 (drop 81 content))) = 81)"
proof -
  have "NUL \<notin> set (take 81 content)" "NUL \<notin> set (take 81 (drop 81 content))"
    if "NUL \<notin> set content"
    using that by (auto dest: in_set_takeD in_set_dropD)
  then show ?thesis
    using assms by (simp add: cat_command_def cat_loop_200 c_str_plain)
qed

theorem cat_command_long_line_witness:
  "cat_command shift_parameter
     (\<lambda>name. if name = ''/f'' then Some (replicate 200 (CHR ''a'')) else None) ''f'' [] booted =
     ([replicate 81 (CHR ''a''), replicate 81 (CHR ''a'')], booted)"
proof -
  have 1: "shift_parameter ''f'' = (''f'', [])" and 2: "shift_parameter [] = ([], [])"
    by (simp_all add: shift_parameter_def find_first_of_def)
  have 3: "c_str (absolute_from_relative booted ''f'') = ''/f''"
    by (simp add: absolute_from_relative_def char0_def booted_def on_module_loaded_def
        c_str_def NUL_def)
  have 4: "c_str (replicate n (CHR ''a'')) = replicate n (CHR ''a'')" for n
    by (rule c_str_plain) (simp add: NUL_def)
  show ?thesis
    using cat_command_long_line [of "replicate 200 (CHR ''a'')" shift_parameter "''f''" "''f''"
        "[]" "[]" "\<lambda>name. if name = ''/f'' then Some (replicate 200 (CHR ''a'')) else None"
        booted "[]"]
    by (simp add: 1 2 3 4 LF_def)
qed

text \<open>
  Claim C6, on the code. A file of ten lines, each of 30 letters and a line feed, shown
  with the limit 3: cat writes the first two lines and then the first 21 letters of the
  third line, and stops. The byte counter is not set back at a line feed, so the 81st
  letter of the file forces a flush in the middle of line 3, and that flush is counted
  as the third line.
\<close>

theorem cat_command_limit_3:
  "cat_command shift_parameter
     (\<lambda>name. if name = ''/f'' then Some (concat (replicate 10 (replicate 30 (CHR ''a'') @ [LF])))
        else None) ''f 3'' [] booted =
     ([replicate 30 (CHR ''a'') @ [LF], replicate 30 (CHR ''a'') @ [LF],
       replicate 21 (CHR ''a'')], booted)"
proof -
  have 1: "shift_parameter ''f 3'' = (''f'', ''3'')" and 2: "shift_parameter ''3'' = (''3'', [])"
    by (simp_all add: shift_parameter_def find_first_of_def)
  have 3: "c_str (absolute_from_relative booted ''f'') = ''/f''"
    by (simp add: absolute_from_relative_def char0_def booted_def on_module_loaded_def
        c_str_def NUL_def)
  have 4: "strtol (c_str ''3'') = (3, 1)"
    by (simp add: strtol_def c_str_def NUL_def isspace_def isdigit_def char0_def)
  have a: "CHR ''a'' \<noteq> LF" "CHR ''a'' \<noteq> NUL" "LF \<noteq> NUL"
    by (simp_all add: LF_def NUL_def)
  have 5: "cat_loop 3 (concat (replicate 10 (replicate 30 (CHR ''a'') @ [LF]))) [] 0 0 [] =
      [replicate 30 (CHR ''a'') @ [LF], replicate 30 (CHR ''a'') @ [LF],
       replicate 21 (CHR ''a'')]"
    by (simp add: eval_nat_numeral Let_def a c_str_def)
  show ?thesis
    by (simp add: cat_command_def 1 2 3 4 5)
qed

section \<open>rm\<close>

text \<open>
  Claim C7, on the code. For every argument string, every tokenizer and every file
  system, the remove command reads through \<^verbatim>\<open>fn\<close> after the string it points into has
  been destroyed: the temporary that path resolution returned does not live until the
  delete call.
\<close>

theorem rm_command_dangling:
  "rm_command shift remove parameters stream s h = Inl DanglingPointer"
  by (simp add: rm_command_def construct_def destroy_def deref_def case_prod_unfold)

section \<open>set_temp\<close>

text \<open>
  Claim C8, as the code has it. When the second token of the argument string is missing,
  or is one at whose start \<^verbatim>\<open>strtod\<close> finds no number to convert (after white space and
  an optional sign there is no digit, no point followed by a digit, and neither \<open>inf\<close> nor
  \<open>nan\<close>), set_temp passes exactly zero to the data-exchange interface for the named
  target, and what it prints depends only on the result of that call: the success line
  when the interface knows the target, the "is not a known temperature device" line when
  it does not. No other message is printed.
\<close>

theorem set_temp_command_default:
  assumes "shift parameters = (type, rest)" and "shift rest = (temp, rest')"
    and "temp = [] \<or> \<not> strtod_subject (c_str temp)"
  shows "set_temp_command shift get_checksum conv set_value fmt tcs parameters stream s pd =
           (stream @
              [if fst (set_value tcs (get_checksum type) 0 pd)
               then c_str type @ '' temp set to: '' @ fmt 0 @ CRLF
               else c_str type @ '' is not a known temperature device'' @ CRLF],
            s, snd (set_value tcs (get_checksum type) 0 pd))"
  using assms by (auto simp: set_temp_command_def strtod_def case_prod_unfold)

theorem set_temp_command_default_witness:
  "\<not> strtod_subject (c_str ''abc'')
   \<and> set_temp_command shift_parameter (\<lambda>name. if name = ''bed'' then 1 else 2) (\<lambda>t. 185 :: int)
       (\<lambda>d i v written. (i = 1, written @ [(d, i, v)])) (\<lambda>v. if v = 0 then ''0.0'' else ''?'') 7
       ''bed abc'' [] booted [] = ([''bed temp set to: 0.0'' @ CRLF], booted, [(7, 1, 0)])
   \<and> set_temp_command shift_parameter (\<lambda>name. if name = ''bed'' then 1 else 2) (\<lambda>t. 185 :: int)
       (\<lambda>d i v written. (i = 1, written @ [(d, i, v)])) (\<lambda>v. if v = 0 then ''0.0'' else ''?'') 7
       ''fan'' [] booted [] =
         ([''fan is not a known temperature device'' @ CRLF], booted, [(7, 2, 0)])"
proof -
  have 1: "shift_parameter ''bed abc'' = (''bed'', ''abc'')"
    and 2: "shift_parameter ''abc'' = (''abc'', [])"
    and 3: "shift_parameter ''fan'' = (''fan'', [])"
    and 4: "shift_parameter [] = ([], [])"
    by (simp_all add: shift_parameter_def find_first_of_def)
  have 5: "\<not> strtod_subject (c_str ''abc'')"
    by (simp add: strtod_subject_def c_str_def NUL_def isspace_def isdigit_def char0_def
        tolower_def)
  have 6: "c_str ''bed'' = ''bed''" "c_str ''fan'' = ''fan''"
    by (simp_all add: c_str_def NUL_def)
  show ?thesis
    using set_temp_command_default [OF 1 2, of "\<lambda>name. if name = ''bed'' then 1 else 2"
        "\<lambda>t. 185 :: int" "\<lambda>d i v written. (i = 1, written @ [(d, i, v)])"
        "\<lambda>v. if v = 0 then ''0.0'' else ''?''" 7 "[]" booted "[]"]
      set_temp_command_default [OF 3 4, of "\<lambda>name. if name = ''bed'' then 1 else 2"
        "\<lambda>t. 185 :: int" "\<lambda>d i v written. (i = 1, written @ [(d, i, v)])"
        "\<lambda>v. if v = 0 then ''0.0'' else ''?''" 7 "[]" booted "[]"]
    by (simp add: 5 6)
qed

text \<open>
  Claim C8 as stated, for every argument that does not parse as a number, fails on an
  argument that is not a number but begins with one: \<^verbatim>\<open>strtod\<close> is called without an end
  pointer, so it converts the leading \<open>12\<close> of \<open>12abc\<close>, and set_temp writes 12, not zero,
  and reports it as set. The words \<open>info\<close> and \<open>nan\<close> are converted in the same way, to
  an infinity and to a NaN.
\<close>

theorem set_temp_command_prefix_counterexample:
  "strtod_subject (c_str ''12abc'')
   \<and> strtod_subject (c_str ''info'')
   \<and> strtod_subject (c_str ''nan'')
   \<and> set_temp_command shift_parameter (\<lambda>name. if name = ''bed'' then 1 else 2)
       (\<lambda>t. if t = ''12abc'' then 12 else 0 :: int)
       (\<lambda>d i v written. (i = 1, written @ [(d, i, v)]))
       (\<lambda>v. if v = 12 then ''12.0'' else ''?'') 7
       ''bed 12abc'' [] booted [] = ([''bed temp set to: 12.0'' @ CRLF], booted, [(7, 1, 12)])"
  by (simp add: set_temp_command_def strtod_def strtod_subject_def shift_parameter_def
      find_first_of_def c_str_def NUL_def isspace_def isdigit_def char0_def tolower_def)

section \<open>Heap walk\<close>

lemma heap_chunks_less:
  "heap_chunks mem cur heapEnd (sz # sizes) \<Longrightarrow> cur < heapEnd"
proof -
  assume a: "heap_chunks mem cur heapEnd (sz # sizes)"
  then have "8 \<le> sz" and le: "unat cur + unat sz \<le> unat heapEnd"
    by simp_all
  then have "8 \<le> unat sz"
    by (simp add: word_le_nat_alt)
  with le have "unat cur < unat heapEnd"
    by linarith
  then show ?thesis
    by (simp add: word_less_nat_alt)
qed

lemma heapWalk_loop_chunks:
  "heap_chunks mem (chunkCurr w) heapEnd sizes \<Longrightarrow>
   \<exists>w'. heapWalk_loop mem verbose heapEnd w = Some w'
      \<and> usedSize w' = usedSize w + usedBytes (classify mem (chunkCurr w) (freeCurr w) sizes)
      \<and> freeSize w' = freeSize w + freeBytes (classify mem (chunkCurr w) (freeCurr w) sizes)
      \<and> printed w' = printed w @
           (if verbose then chunk_lines (chunkNumber w) (classify mem (chunkCurr w) (freeCurr w) sizes)
            else [])"
proof (induction sizes arbitrary: w)
  case Nil
  then show ?case
    by (subst heapWalk_loop.simps) (simp add: usedBytes_def freeBytes_def)
next
  case (Cons sz sizes)
  let ?b = "heapWalk_body mem verbose w"
  from Cons.prems have lt: "chunkCurr w < heapEnd"
    by (rule heap_chunks_less)
  from Cons.prems have sz: "mem (chunkCurr w) = sz"
    by simp
  have cur: "chunkCurr ?b = chunkCurr w + sz"
    by (simp add: heapWalk_body_def Let_def sz)
  from Cons.prems have "heap_chunks mem (chunkCurr ?b) heapEnd sizes"
    by (simp add: cur)
  from Cons.IH [OF this] obtain w' where
    w': "heapWalk_loop mem verbose heapEnd ?b = Some w'"
      "usedSize w' = usedSize ?b + usedBytes (classify mem (chunkCurr ?b) (freeCurr ?b) sizes)"
      "freeSize w' = freeSize ?b + freeBytes (classify mem (chunkCurr ?b) (freeCurr ?b) sizes)"
      "printed w' = printed ?b @
           (if verbose then chunk_lines (chunkNumber ?b) (classify mem (chunkCurr ?b) (freeCurr ?b) sizes)
            else [])"
    by blast
  have loop: "heapWalk_loop mem verbose heapEnd w = Some w'"
    by (subst heapWalk_loop.simps) (simp add: lt w'(1))
  have fc: "freeCurr ?b = (if chunkCurr w = freeCurr w then mem (freeCurr w + 4) else freeCurr w)"
    by (simp add: heapWalk_body_def Let_def)
  have us: "usedSize ?b = (if chunkCurr w = freeCurr w then usedSize w else usedSize w + (sz - 8))"
    and fs: "freeSize ?b = (if chunkCurr w = freeCurr w then freeSize w + (sz - 8) else freeSize w)"
    and pr: "printed ?b = printed w @
         (if verbose
          then [Chunk (chunkNumber w) ((chunkCurr w + 4 + 7) AND NOT 7) (sz - 8)
                  (chunkCurr w = freeCurr w)]
          else [])"
    and cn: "chunkNumber ?b = chunkNumber w + 1"
    unfolding heapWalk_body_def Let_def sz by simp_all
  have "usedSize w' = usedSize w + usedBytes (classify mem (chunkCurr w) (freeCurr w) (sz # sizes))"
    by (simp add: w'(2) cur fc us usedBytes_def)
  moreover have "freeSize w' = freeSize w + freeBytes (classify mem (chunkCurr w) (freeCurr w) (sz # sizes))"
    by (simp add: w'(3) cur fc fs freeBytes_def)
  moreover have "printed w' = printed w @
           (if verbose then chunk_lines (chunkNumber w) (classify mem (chunkCurr w) (freeCurr w) (sz # sizes))
            else [])"
    by (cases verbose) (use w'(4) cur fc pr cn in simp_all)
  ultimately show ?case
    using loop by blast
qed

lemma heap_chunks_extent:
  "heap_chunks mem cur heapEnd sizes \<Longrightarrow>
   unat cur + sum_list (map unat sizes) = unat heapEnd"
proof (induction sizes arbitrary: cur)
  case Nil
  then show ?case by simp
next
  case (Cons sz sizes)
  then have le: "unat cur + unat sz \<le> unat heapEnd"
    and rest: "heap_chunks mem (cur + sz) heapEnd sizes"
    by simp_all
  have "unat heapEnd < 2 ^ 32"
    using unsigned_less [of heapEnd] by simp
  with le have "unat cur + unat sz < 2 ^ LENGTH(32)"
    by simp
  then have "unat (cur + sz) = unat cur + unat sz"
    by (simp only: unat_add_lem)
  with Cons.IH [OF rest] show ?case
    by simp
qed

lemma heap_chunks_overhead:
  "heap_chunks mem cur heapEnd sizes \<Longrightarrow> sz \<in> set sizes \<Longrightarrow> 8 \<le> sz"
  by (induction sizes arbitrary: cur) auto

lemma classify_sizes:
  "map (\<lambda>(a, sz, free). sz) (classify mem cur cursor sizes) = map (\<lambda>sz. sz - 8) sizes"
  by (induction sizes arbitrary: cur cursor) auto

lemma totals_no_wrap:
  "sum_list (map (\<lambda>(a, sz, free). unat sz) chunks) < 2 ^ 32 \<Longrightarrow>
   unat (usedBytes chunks) + unat (freeBytes chunks) =
     sum_list (map (\<lambda>(a, sz, free). unat sz) chunks)"
proof (induction chunks)
  case Nil
  then show ?case by (simp add: usedBytes_def freeBytes_def)
next
  case (Cons c chunks)
  obtain a sz free where c: "c = (a, sz, free)"
    by (cases c)
  from Cons.prems have small: "unat sz + sum_list (map (\<lambda>(a, sz, free). unat sz) chunks) < 2 ^ 32"
    by (simp add: c)
  then have IH: "unat (usedBytes chunks) + unat (freeBytes chunks) =
     sum_list (map (\<lambda>(a, sz, free). unat sz) chunks)"
    by (intro Cons.IH) simp
  show ?case
  proof (cases free)
    case True
    from small IH have "unat sz + unat (freeBytes chunks) < 2 ^ LENGTH(32)"
      by simp
    then have "unat (sz + freeBytes chunks) = unat sz + unat (freeBytes chunks)"
      by (simp only: unat_add_lem)
    with IH True show ?thesis
      by (simp add: c usedBytes_def freeBytes_def)
  next
    case False
    from small IH have "unat sz + unat (usedBytes chunks) < 2 ^ LENGTH(32)"
      by simp
    then have "unat (sz + usedBytes chunks) = unat sz + unat (usedBytes chunks)"
      by (simp only: unat_add_lem)
    with IH False show ?thesis
      by (simp add: c usedBytes_def freeBytes_def)
  qed
qed

lemma totals_word:
  "usedBytes chunks + freeBytes chunks = sum_list (map (\<lambda>(a, sz, free). sz) chunks)"
  by (induction chunks) (auto simp: usedBytes_def freeBytes_def)

lemma adjusted_sizes:
  assumes "heap_chunks mem cur heapEnd sizes"
  shows "map (\<lambda>(a, sz, free). unat sz) (classify mem cur cursor sizes) =
         map (\<lambda>sz. unat sz - 8) sizes"
proof -
  have "map (\<lambda>(a, sz, free). unat sz) (classify mem cur cursor sizes) =
        map unat (map (\<lambda>(a, sz, free). sz) (classify mem cur cursor sizes))"
    by (simp add: comp_def case_prod_unfold)
  also have "\<dots> = map (\<lambda>sz. unat (sz - 8)) sizes"
    by (simp add: classify_sizes comp_def)
  also have "\<dots> = map (\<lambda>sz. unat sz - 8) sizes"
  proof (rule map_cong [OF refl])
    fix sz assume "sz \<in> set sizes"
    with assms have "8 \<le> sz"
      by (rule heap_chunks_overhead)
    then show "unat (sz - 8) = unat sz - 8"
      by (simp add: unat_sub)
  qed
  finally show ?thesis .
qed

lemma heap_chunks_le:
  "heap_chunks mem cur heapEnd sizes \<Longrightarrow> cur \<le> heapEnd"
  using heap_chunks_extent [of mem cur heapEnd sizes] by (simp add: word_le_nat_alt)

text \<open>
  Claim C1. On a heap that satisfies the allocator's invariants (the chunks lie one
  after the other from the start of the heap to its end, and every raw size includes the
  8 bytes of overhead), the walk ends, and what it prints is the top line with the heap
  end minus the heap start, then, when verbose, one line for each chunk that the spec's
  walk discovers (free exactly when the chunk's address is the free-list cursor), then
  the totals of the used and of the free chunks. Every adjusted size is the raw size
  minus 8; the two totals add up to the sum of the adjusted sizes, as 32-bit values and
  as numbers (nothing wraps); and the value of the top line is at least the total of
  the used chunks. That the free list is sorted is not needed for any of this.
\<close>

theorem heapWalk_totals:
  assumes "heap_chunks mem heapStart heapEnd sizes"
  shows "(let chunks = classify mem heapStart malloc_free_list sizes in
     heapWalk mem heapStart malloc_free_list heapEnd stream verbose =
       Some (stream @ [Used_Heap_Size (heapEnd - heapStart)]
               @ (if verbose then chunk_lines 1 chunks else [])
               @ [Allocated_Free (usedBytes chunks) (freeBytes chunks)])
     \<and> map (\<lambda>(a, sz, free). unat sz) chunks = map (\<lambda>sz. unat sz - 8) sizes
     \<and> usedBytes chunks + freeBytes chunks = sum_list (map (\<lambda>(a, sz, free). sz) chunks)
     \<and> unat (usedBytes chunks) + unat (freeBytes chunks) =
         sum_list (map (\<lambda>(a, sz, free). unat sz) chunks)
     \<and> unat (usedBytes chunks) \<le> unat (heapEnd - heapStart))"
proof -
  define chunks where "chunks = classify mem heapStart malloc_free_list sizes"
  define w where "w = \<lparr>chunkNumber = 1, chunkCurr = heapStart, freeCurr = malloc_free_list,
               freeSize = 0, usedSize = 0,
               printed = stream @ [Used_Heap_Size (heapEnd - heapStart)]\<rparr>"
  have "heap_chunks mem (chunkCurr w) heapEnd sizes"
    using assms by (simp add: w_def)
  from heapWalk_loop_chunks [OF this, of verbose] obtain w' where
    "heapWalk_loop mem verbose heapEnd w = Some w'"
    "usedSize w' = usedBytes chunks" "freeSize w' = freeBytes chunks"
    "printed w' = stream @ [Used_Heap_Size (heapEnd - heapStart)]
        @ (if verbose then chunk_lines 1 chunks else [])"
    by (auto simp: w_def chunks_def)
  then have walk: "heapWalk mem heapStart malloc_free_list heapEnd stream verbose =
       Some (stream @ [Used_Heap_Size (heapEnd - heapStart)]
               @ (if verbose then chunk_lines 1 chunks else [])
               @ [Allocated_Free (usedBytes chunks) (freeBytes chunks)])"
    by (simp add: heapWalk_def w_def [symmetric])
  have adj: "map (\<lambda>(a, sz, free). unat sz) chunks = map (\<lambda>sz. unat sz - 8) sizes"
    unfolding chunks_def using assms by (rule adjusted_sizes)
  have ext: "unat heapStart + sum_list (map unat sizes) = unat heapEnd"
    using assms by (rule heap_chunks_extent)
  have "sum_list (map (\<lambda>sz. unat sz - 8) sizes) \<le> sum_list (map unat sizes)"
    by (rule sum_list_mono) simp
  then have bound: "sum_list (map (\<lambda>(a, sz, free). unat sz) chunks) \<le> unat heapEnd - unat heapStart"
    using ext by (simp add: adj)
  have "unat heapEnd < 2 ^ 32"
    using unsigned_less [of heapEnd] by simp
  with bound have "sum_list (map (\<lambda>(a, sz, free). unat sz) chunks) < 2 ^ 32"
    by simp
  then have nat: "unat (usedBytes chunks) + unat (freeBytes chunks) =
         sum_list (map (\<lambda>(a, sz, free). unat sz) chunks)"
    by (rule totals_no_wrap)
  have "heapStart \<le> heapEnd"
    using assms by (rule heap_chunks_le)
  then have "unat (heapEnd - heapStart) = unat heapEnd - unat heapStart"
    by (rule unat_sub)
  with nat bound have top: "unat (usedBytes chunks) \<le> unat (heapEnd - heapStart)"
    by simp
  show ?thesis
    unfolding Let_def chunks_def [symmetric]
    using walk adj totals_word [of chunks] nat top by simp
qed


theorem heapWalk_totals_witness:
  "heap_chunks ((\<lambda>a. 0)(0x10000000 := 16, 0x10000010 := 24, 0x10000014 := 0, 0x10000028 := 16))
     0x10000000 0x10000038 [16, 24, 16]
   \<and> heapWalk ((\<lambda>a. 0)(0x10000000 := 16, 0x10000010 := 24, 0x10000014 := 0, 0x10000028 := 16))
       0x10000000 0x10000010 0x10000038 [] True =
     Some [Used_Heap_Size 56, Chunk 1 0x10000008 8 False, Chunk 2 0x10000018 16 True,
           Chunk 3 0x10000030 8 False, Allocated_Free 16 16]"
proof -
  let ?mem = "(\<lambda>a. 0)(0x10000000 := 16, 0x10000010 := 24, 0x10000014 := 0, 0x10000028 := 16)
    :: u32 \<Rightarrow> u32"
  have h: "heap_chunks ?mem 0x10000000 0x10000038 [16, 24, 16]"
    by simp
  show ?thesis
    using h heapWalk_totals [OF h, of "0x10000010" "[]" True]
    by (simp add: usedBytes_def freeBytes_def Let_def)
qed

end
